theory Spec2Isabelle
  imports Complex_Main
begin

section \<open>Compound module of the Ethereum family (compound.js)\<close>

text \<open>
  A shallow embedding of \<^verbatim>\<open>src/families/ethereum/modules/compound.js\<close>.

  \<^item> Objects are records; the field \<^verbatim>\<open>id\<close> of a token, an account and an operation is
    \<open>token_id\<close>, \<open>account_id\<close> and \<open>op_id\<close>, since record fields are global names.
  \<^item> A rejected promise or a thrown exception is \<open>Inl e\<close> of the result type
    \<open>js_error + 'a\<close>.
  \<^item> \<^verbatim>\<open>BigNumber\<close> values are exact decimals: integer amounts are \<open>int\<close>, rates are \<open>rat\<close>.
  \<^item> Token objects are the registry's own objects, so the source's \<^verbatim>\<open>a.token === ctoken\<close>
    is equality of token values.
  \<^item> What the module imports (environment flag, currency registry, network, \<^verbatim>\<open>mergeOps\<close>,
    the clock) and the module variable \<^verbatim>\<open>compoundPreloadedValue\<close> are the fields of \<open>env\<close>.
\<close>

subsection \<open>Data\<close>

datatype js_error = NetworkError | TypeError | TokenNotFound string

record token =
  token_id :: string
  contractAddress :: string
  magnitude :: nat  \<comment> \<open>\<^verbatim>\<open>units[0].magnitude\<close>\<close>
  compoundFor :: "string option"

record currency =
  currency_id :: string

datatype extra_value =
  ExtraBigNumber int
| ExtraRateString rat  \<comment> \<open>\<^verbatim>\<open>rate.toString()\<close>, the decimal string of the rate\<close>
| ExtraOther string

record operation =
  op_id :: string
  hash :: string
  op_type :: string
  op_value :: int
  accountId :: string
  date :: int  \<comment> \<open>\<^verbatim>\<open>date.getTime()\<close>, milliseconds\<close>
  extra :: "(string \<times> extra_value) list"

record account =
  account_type :: string
  account_id :: string
  token :: token
  parentId :: string
  balance :: int
  spendableBalance :: int
  creationDate :: int
  operationsCount :: nat
  operations :: "operation list"
  pendingOperations :: "operation list"
  starred :: bool
  swapHistory :: "string list"

text \<open>An entry of \<^verbatim>\<open>CompoundPreloaded\<close>; the rate string is the decimal it denotes.\<close>

record preloaded =
  rate :: rat
  supplyAPY :: string

text \<open>The Compound API: the query of a request and the \<^verbatim>\<open>data\<close> of a response.\<close>

record query =
  block_timestamp :: int
  addresses :: "string list"

record ctoken_info =
  token_address :: string
  exchange_rate_value :: rat
  comp_supply_apy_value :: rat

record api_data =
  cToken :: "ctoken_info list option"

record CurrentRate =
  cr_token :: token
  cr_rate :: rat
  cr_supplyAPY :: string

record HistoRate =
  hr_token :: token
  hr_rate :: rat

text \<open>A value of the object \<^verbatim>\<open>compoundByTokenId\<close>.\<close>

record pair =
  tokenAccount :: "account option"
  pair_token :: token
  ctoken :: token
  ctokenAccount :: "account option"

text \<open>
  What a function returning an account list hands back: the very array it was given
  (\<^verbatim>\<open>return subAccounts\<close>) or an array it has just built.
\<close>

datatype 'a returned = Input | Fresh 'a

fun contents :: "'a \<Rightarrow> 'a returned \<Rightarrow> 'a" where
  "contents inp Input = inp"
| "contents inp (Fresh xs) = xs"

record env =
  COMPOUND :: bool  \<comment> \<open>\<^verbatim>\<open>getEnv("COMPOUND")\<close>\<close>
  listTokens :: "token list"  \<comment> \<open>\<^verbatim>\<open>listTokens({ withDelisted: true })\<close>\<close>
  listTokensForCryptoCurrency :: "currency \<Rightarrow> token list"
  getTokenById :: "string \<Rightarrow> js_error + token"
  network :: "string \<times> query \<Rightarrow> js_error + api_data"
  mergeOps :: "operation list \<Rightarrow> operation list \<Rightarrow> operation list"
  decimalString :: "rat \<Rightarrow> string"  \<comment> \<open>\<^verbatim>\<open>BigNumber.toString()\<close>\<close>
  now :: int  \<comment> \<open>\<^verbatim>\<open>new Date()\<close>\<close>
  compoundPreloadedValue :: "(string \<times> preloaded) list"

subsection \<open>JavaScript and bignumber.js primitives\<close>

text \<open>
  \<^verbatim>\<open>integerValue()\<close> without a rounding mode rounds with bignumber.js's
  \<^verbatim>\<open>ROUNDING_MODE\<close>, whose default, never changed by this module, is \<^verbatim>\<open>ROUND_HALF_UP\<close>:
  to the nearest integer, a tie away from zero.
\<close>

definition integerValue :: "rat \<Rightarrow> int" where
  "integerValue x = (if 0 \<le> x then \<lfloor>x + 1 / 2\<rfloor> else - \<lfloor>- x + 1 / 2\<rfloor>)"

text \<open>
  \<^verbatim>\<open>BigNumber(10).pow(n)\<close>: exact for \<open>n \<ge> 0\<close>; for \<open>n < 0\<close> the quotient \<open>1 / 10^-n\<close>
  is rounded to \<^verbatim>\<open>DECIMAL_PLACES\<close> = 20 places, which is exact down to \<open>-20\<close> and 0 below.
\<close>

definition pow10 :: "int \<Rightarrow> rat" where
  "pow10 n = (if 0 \<le> n then 10 ^ nat n else if - 20 \<le> n then 1 / 10 ^ nat (- n) else 0)"

text \<open>\<^verbatim>\<open>Math.round(date.getTime() / 1000)\<close>: a tie goes up.\<close>

definition round_seconds :: "int \<Rightarrow> int" where
  "round_seconds ms = (ms + 500) div 1000"

definition lower_char :: "char \<Rightarrow> char" where
  "lower_char c =
     (let n = (of_char c :: nat) in if 65 \<le> n \<and> n \<le> 90 then char_of (n + 32) else c)"

definition toLowerCase :: "string \<Rightarrow> string" where
  "toLowerCase s = map lower_char s"

fun join :: "string \<Rightarrow> string list \<Rightarrow> string" where
  "join sep [] = []"
| "join sep [x] = x"
| "join sep (x # y # ys) = x @ sep @ join sep (y # ys)"

text \<open>
  A JavaScript object with string keys: \<^verbatim>\<open>o[k]\<close> is \<open>map_of o k\<close>, \<^verbatim>\<open>o[k] = v\<close> is
  \<open>obj_set\<close> (a key already there keeps its place), \<^verbatim>\<open>values(o)\<close> is \<open>map snd o\<close>.
\<close>

fun obj_set :: "(string \<times> 'v) list \<Rightarrow> string \<Rightarrow> 'v \<Rightarrow> (string \<times> 'v) list" where
  "obj_set [] k v = [(k, v)]"
| "obj_set (p # ps) k v = (if fst p = k then (k, v) # ps else p # obj_set ps k v)"

text \<open>
  \<^verbatim>\<open>xs.map(fn)\<close> with a callback that may throw: the results in order, or the first
  exception.
\<close>

fun map_throwing :: "('a \<Rightarrow> js_error + 'b) \<Rightarrow> 'a list \<Rightarrow> js_error + 'b list" where
  "map_throwing fn [] = Inr []"
| "map_throwing fn (x # xs) =
     (case fn x of
        Inl e \<Rightarrow> Inl e
      | Inr y \<Rightarrow> (case map_throwing fn xs of Inl e \<Rightarrow> Inl e | Inr ys \<Rightarrow> Inr (y # ys)))"

text \<open>
  \<^verbatim>\<open>promiseAllBatched(n, items, fn)\<close>: the results of \<^verbatim>\<open>fn\<close> in the order of the items,
  or the rejection of a call that fails. The calls of this module do not depend on one
  another, so the window \<open>n\<close> does not change the results.
\<close>

definition promiseAllBatched ::
  "nat \<Rightarrow> 'a list \<Rightarrow> ('a \<Rightarrow> js_error + 'b) \<Rightarrow> js_error + 'b list"
where
  "promiseAllBatched n items fn = map_throwing fn items"

text \<open>\<^verbatim>\<open>xs.filter(Boolean)\<close> on an array of objects and \<^verbatim>\<open>undefined\<close>/\<^verbatim>\<open>null\<close>.\<close>

fun filter_Boolean :: "'a option list \<Rightarrow> 'a list" where
  "filter_Boolean [] = []"
| "filter_Boolean (None # xs) = filter_Boolean xs"
| "filter_Boolean (Some x # xs) = x # filter_Boolean xs"

text \<open>\<^verbatim>\<open>if (compoundFor)\<close>: a missing field and the empty string are both falsy.\<close>

definition truthy_compoundFor :: "token \<Rightarrow> string option" where
  "truthy_compoundFor t =
     (case compoundFor t of None \<Rightarrow> None | Some s \<Rightarrow> if s = [] then None else Some s)"

subsection \<open>The preloaded snapshot\<close>

definition hydrate :: "env \<Rightarrow> (string \<times> preloaded) list \<Rightarrow> env" where
  "hydrate e v = e\<lparr>compoundPreloadedValue := v\<rparr>"

definition getCTokenRate :: "env \<Rightarrow> token \<Rightarrow> rat" where
  "getCTokenRate e ct =
     (case map_of (compoundPreloadedValue e) (token_id ct) of
        Some v \<Rightarrow> rate v
      | None \<Rightarrow> 0)"

definition getCTokenSupplyAPY :: "env \<Rightarrow> token \<Rightarrow> string" where
  "getCTokenSupplyAPY e ct =
     (case map_of (compoundPreloadedValue e) (token_id ct) of
        Some v \<Rightarrow> supplyAPY v
      | None \<Rightarrow> [])"

subsection \<open>Fetching rates\<close>

definition API_BASE :: string where
  "API_BASE = ''https://api.compound.finance/api/v2''"

definition fetch :: "env \<Rightarrow> string \<Rightarrow> query \<Rightarrow> js_error + api_data" where
  "fetch e path q = network e (API_BASE @ path, q)"

text \<open>\<^verbatim>\<open>data.cToken.find(...)\<close>: a \<^verbatim>\<open>data\<close> without \<^verbatim>\<open>cToken\<close> throws a TypeError.\<close>

definition find_cToken :: "api_data \<Rightarrow> token \<Rightarrow> js_error + ctoken_info option" where
  "find_cToken d t =
     (case cToken d of
        None \<Rightarrow> Inl TypeError
      | Some cts \<Rightarrow>
          Inr (find (\<lambda>ct. toLowerCase (token_address ct) = toLowerCase (contractAddress t)) cts))"

text \<open>The rate of a found entry, shared by both fetchers (lines 243-248 and 275-280).\<close>

definition scaled_rate :: "env \<Rightarrow> token \<Rightarrow> ctoken_info \<Rightarrow> js_error + rat" where
  "scaled_rate e t ct =
     (let rawRate = exchange_rate_value ct in
      case getTokenById e (case truthy_compoundFor t of None \<Rightarrow> [] | Some s \<Rightarrow> s) of
        Inl err \<Rightarrow> Inl err
      | Inr otoken \<Rightarrow>
          (let magnitudeRatio = pow10 (int (magnitude otoken) - int (magnitude t))
           in Inr (rawRate * magnitudeRatio)))"

definition fetchCurrentRates :: "env \<Rightarrow> token list \<Rightarrow> js_error + CurrentRate list" where
  "fetchCurrentRates e tokens =
     (if length tokens = 0 then Inr []
      else case fetch e ''/ctoken''
                  \<lparr>block_timestamp = 0, addresses = [join '','' (map contractAddress tokens)]\<rparr> of
        Inl err \<Rightarrow> Inl err
      | Inr d \<Rightarrow>
          map_throwing (\<lambda>t.
            case find_cToken d t of
              Inl err \<Rightarrow> Inl err
            | Inr None \<Rightarrow> Inr \<lparr>cr_token = t, cr_rate = 0, cr_supplyAPY = []\<rparr>
            | Inr (Some ct) \<Rightarrow>
                (case scaled_rate e t ct of
                   Inl err \<Rightarrow> Inl err
                 | Inr r \<Rightarrow>
                     Inr \<lparr>cr_token = t, cr_rate = r,
                          cr_supplyAPY =
                            decimalString e
                              (of_int (integerValue (comp_supply_apy_value ct * 100)) / 100)
                            @ ''%''\<rparr>))
            tokens)"

definition fetchHistoricalRate :: "env \<Rightarrow> token \<Rightarrow> int \<Rightarrow> js_error + HistoRate" where
  "fetchHistoricalRate e t d =
     (case fetch e ''/ctoken''
             \<lparr>block_timestamp = round_seconds d, addresses = [contractAddress t]\<rparr> of
        Inl err \<Rightarrow> Inl err
      | Inr dat \<Rightarrow>
          (case find_cToken dat t of
             Inl err \<Rightarrow> Inl err
           | Inr None \<Rightarrow> Inr \<lparr>hr_token = t, hr_rate = 0\<rparr>
           | Inr (Some ct) \<Rightarrow>
               (case scaled_rate e t ct of
                  Inl err \<Rightarrow> Inl err
                | Inr r \<Rightarrow> Inr \<lparr>hr_token = t, hr_rate = r\<rparr>)))"

definition fetchHistoricalRates :: "env \<Rightarrow> token \<Rightarrow> int list \<Rightarrow> js_error + HistoRate list" where
  "fetchHistoricalRates e t dates = promiseAllBatched 3 dates (fetchHistoricalRate e t)"

text \<open>
  \<^verbatim>\<open>r.rate.toString(10)\<close>: with the base given, bignumber.js rounds the value to
  \<^verbatim>\<open>DECIMAL_PLACES\<close> = 20 places with the rounding mode; the snapshot holds the decimal
  that this string denotes.
\<close>

definition toString10 :: "rat \<Rightarrow> rat" where
  "toString10 x = of_int (integerValue (x * 10 ^ 20)) / 10 ^ 20"

definition preload :: "env \<Rightarrow> js_error + (string \<times> preloaded) list \<times> env" where
  "preload e =
     (if \<not> COMPOUND e then Inr ([], e)
      else
        let ctokens = filter (\<lambda>t. truthy_compoundFor t \<noteq> None) (listTokens e) in
        case fetchCurrentRates e ctokens of
          Inl err \<Rightarrow> Inl err
        | Inr currentRates \<Rightarrow>
            (let preloaded =
                   foldl (\<lambda>p r. obj_set p (token_id (cr_token r))
                                   \<lparr>rate = toString10 (cr_rate r), supplyAPY = cr_supplyAPY r\<rparr>)
                     [] currentRates
             in Inr (preloaded, e\<lparr>compoundPreloadedValue := preloaded\<rparr>)))"

subsection \<open>Pair inference\<close>

definition inferStep ::
  "env \<Rightarrow> account list \<Rightarrow> token \<Rightarrow> (string \<times> pair) list \<Rightarrow> js_error + (string \<times> pair) list"
where
  "inferStep e subAccounts ct m =
     (case truthy_compoundFor ct of
        None \<Rightarrow> Inr m
      | Some cf \<Rightarrow>
          (let tokenAccount = find (\<lambda>a. token_id (token a) = cf) subAccounts;
               ctokenAccount = find (\<lambda>a. token a = ct) subAccounts
           in if tokenAccount = None \<and> ctokenAccount = None then Inr m
              else case getTokenById e cf of
                Inl err \<Rightarrow> Inl err
              | Inr tok \<Rightarrow>
                  Inr (obj_set m cf
                        \<lparr>tokenAccount = tokenAccount, pair_token = tok,
                         ctoken = ct, ctokenAccount = ctokenAccount\<rparr>)))"

fun inferLoop ::
  "env \<Rightarrow> account list \<Rightarrow> token list \<Rightarrow> (string \<times> pair) list \<Rightarrow> js_error + (string \<times> pair) list"
where
  "inferLoop e subAccounts [] m = Inr m"
| "inferLoop e subAccounts (ct # cts) m =
     (case inferStep e subAccounts ct m of
        Inl err \<Rightarrow> Inl err
      | Inr m' \<Rightarrow> inferLoop e subAccounts cts m')"

definition inferSubAccountsCompound ::
  "env \<Rightarrow> currency \<Rightarrow> account list \<Rightarrow> js_error + (string \<times> pair) list"
where
  "inferSubAccountsCompound e cur subAccounts =
     inferLoop e subAccounts (listTokensForCryptoCurrency e cur) []"

subsection \<open>Placeholders before a sync\<close>

definition placeholder :: "env \<Rightarrow> pair \<Rightarrow> account option" where
  "placeholder e p =
     (if tokenAccount p \<noteq> None \<and> ctokenAccount p = None
      then Some \<lparr>account_type = ''TokenAccount'',
                  account_id = ''empty_'' @ token_id (ctoken p),
                  token = ctoken p,
                  parentId = [],
                  balance = 0,
                  spendableBalance = 0,
                  creationDate = now e,
                  operationsCount = 0,
                  operations = [],
                  pendingOperations = [],
                  starred = False,
                  swapHistory = []\<rparr>
      else None)"

definition prepareTokenAccounts ::
  "env \<Rightarrow> currency \<Rightarrow> account list \<Rightarrow> js_error + account list returned"
where
  "prepareTokenAccounts e cur subAccounts =
     (if currency_id cur \<noteq> ''ethereum'' \<or> \<not> COMPOUND e then Inr Input
      else case inferSubAccountsCompound e cur subAccounts of
        Inl err \<Rightarrow> Inl err
      | Inr compoundByTokenId \<Rightarrow>
          (let implicitCTokenAccounts =
                 filter_Boolean (map (placeholder e) (map snd compoundByTokenId))
           in if length implicitCTokenAccounts = 0 then Inr Input
              else Inr (Fresh (subAccounts @ implicitCTokenAccounts))))"

subsection \<open>Digestion after a sync\<close>

definition cdaiToDaiOpMapping :: "(string \<times> string) list" where
  "cdaiToDaiOpMapping = [(''IN'', ''SUPPLY''), (''OUT'', ''REDEEM'')]"

text \<open>The callback of \<^verbatim>\<open>ctokenAccount.operations.map\<close> (lines 183-196).\<close>

definition remapOp :: "account \<Rightarrow> operation \<Rightarrow> HistoRate \<Rightarrow> operation option" where
  "remapOp a op r =
     (let rate = hr_rate r;
          val = integerValue (of_int (op_value op) * rate)
      in case map_of cdaiToDaiOpMapping (op_type op) of
        None \<Rightarrow> None
      | Some ty \<Rightarrow>
          Some (op\<lparr>op_id := account_id a @ ''-'' @ hash op @ ''-'' @ ty,
                   op_type := ty,
                   op_value := val,
                   accountId := account_id a,
                   extra := [(''compoundValue'', ExtraBigNumber (op_value op)),
                             (''rate'', ExtraRateString rate)]\<rparr>))"

text \<open>
  \<^verbatim>\<open>rates[i]\<close> is the rate of the \<open>i\<close>-th operation; \<^verbatim>\<open>fetchHistoricalRates\<close> returns
  one rate for each date, so the index is always in range.
\<close>

definition newOps :: "account \<Rightarrow> account \<Rightarrow> HistoRate list \<Rightarrow> operation list" where
  "newOps a ca rates =
     filter_Boolean (map (\<lambda>(op, r). remapOp a op r) (zip (operations ca) rates))"

text \<open>The callback of \<^verbatim>\<open>promiseAllBatched(2, subAccounts, ...)\<close> (lines 140-209).\<close>

definition digestAccount ::
  "env \<Rightarrow> (string \<times> pair) list \<Rightarrow> account \<Rightarrow> js_error + account option"
where
  "digestAccount e compoundByTokenId a =
     (case truthy_compoundFor (token a) of
        Some cf \<Rightarrow>
          (if map_of compoundByTokenId cf = None then Inr (Some a) else Inr None)
      | None \<Rightarrow>
          (case map_of compoundByTokenId (token_id (token a)) of
             None \<Rightarrow> Inr (Some a)
           | Some maybeCompound \<Rightarrow>
               (case ctokenAccount maybeCompound of
                  None \<Rightarrow> Inr (Some a)
                | Some ca \<Rightarrow>
                    (let latestRate = getCTokenRate e (ctoken maybeCompound);
                         bal = balance a + integerValue (of_int (balance ca) * latestRate)
                     in case fetchHistoricalRates e (ctoken maybeCompound)
                               (map date (operations ca)) of
                          Inl err \<Rightarrow> Inl err
                        | Inr rates \<Rightarrow>
                            Inr (Some (a\<lparr>spendableBalance := balance a,
                                          balance := bal,
                                          operations :=
                                            mergeOps e (operations a) (newOps a ca rates)\<rparr>))))))"

definition digestTokenAccounts ::
  "env \<Rightarrow> currency \<Rightarrow> account list \<Rightarrow> js_error + account list returned"
where
  "digestTokenAccounts e cur subAccounts =
     (if currency_id cur \<noteq> ''ethereum'' \<or> \<not> COMPOUND e then Inr Input
      else case inferSubAccountsCompound e cur subAccounts of
        Inl err \<Rightarrow> Inl err
      | Inr compoundByTokenId \<Rightarrow>
          (if length (map fst compoundByTokenId) = 0 then Inr Input
           else case promiseAllBatched 2 subAccounts (digestAccount e compoundByTokenId) of
             Inl err \<Rightarrow> Inl err
           | Inr all \<Rightarrow> Inr (Fresh (filter_Boolean all))))"

subsection \<open>A concrete registry, oracle and wallet\<close>

text \<open>
  Modelled from the spec: \<^verbatim>\<open>mergeOps\<close> of \<^verbatim>\<open>bridge/jsHelpers\<close> is not part of the module;
  the merged list is the id-keyed union of the original and the new operations, sorted
  by date, newest first. Every theorem below holds for any \<open>mergeOps\<close>; this one only
  serves the concrete environment.
\<close>

definition mergeOps_union :: "operation list \<Rightarrow> operation list \<Rightarrow> operation list" where
  "mergeOps_union existing newFetched =
     sort_key (\<lambda>op. - date op)
       (existing @ filter (\<lambda>op. op_id op \<notin> set (map op_id existing)) newFetched)"

definition ethereum :: currency where
  "ethereum = \<lparr>currency_id = ''ethereum''\<rparr>"

definition bitcoin :: currency where
  "bitcoin = \<lparr>currency_id = ''bitcoin''\<rparr>"

definition dai :: token where
  "dai = \<lparr>token_id = ''ethereum/erc20/dai'', contractAddress = ''0x6B17'',
           magnitude = 18, compoundFor = None\<rparr>"

definition cdai :: token where
  "cdai = \<lparr>token_id = ''ethereum/erc20/cdai'', contractAddress = ''0x5d3A'',
            magnitude = 8, compoundFor = Some ''ethereum/erc20/dai''\<rparr>"

definition registry :: "token list" where
  "registry = [dai, cdai]"

definition getTokenById0 :: "string \<Rightarrow> js_error + token" where
  "getTokenById0 i =
     (case find (\<lambda>t. token_id t = i) registry of
        None \<Rightarrow> Inl (TokenNotFound i)
      | Some t \<Rightarrow> Inr t)"

text \<open>An oracle that knows cDAI at the raw exchange rate 0.02.\<close>

definition network_up :: "string \<times> query \<Rightarrow> js_error + api_data" where
  "network_up req =
     Inr \<lparr>cToken = Some [\<lparr>token_address = ''0x5d3a'', exchange_rate_value = 2 / 100,
                             comp_supply_apy_value = 3\<rparr>]\<rparr>"

text \<open>An oracle whose response has no entry at all.\<close>

definition network_empty :: "string \<times> query \<Rightarrow> js_error + api_data" where
  "network_empty req = Inr \<lparr>cToken = Some []\<rparr>"

text \<open>An oracle that cannot be reached.\<close>

definition network_down :: "string \<times> query \<Rightarrow> js_error + api_data" where
  "network_down req = Inl NetworkError"

definition env0 :: env where
  "env0 = \<lparr>COMPOUND = True,
            listTokens = registry,
            listTokensForCryptoCurrency =
              (\<lambda>c. if currency_id c = ''ethereum'' then registry else []),
            getTokenById = getTokenById0,
            network = network_up,
            mergeOps = mergeOps_union,
            decimalString = (\<lambda>r. ''3''),
            now = 0,
            compoundPreloadedValue =
              [(''ethereum/erc20/cdai'', \<lparr>rate = 1 / 2, supplyAPY = ''3%''\<rparr>)]\<rparr>"

definition op_in :: operation where
  "op_in = \<lparr>op_id = ''c1-0xaa-IN'', hash = ''0xaa'', op_type = ''IN'', op_value = 3,
             accountId = ''c1'', date = 1600000000500, extra = []\<rparr>"

definition op_fees :: operation where
  "op_fees = \<lparr>op_id = ''c1-0xbb-FEES'', hash = ''0xbb'', op_type = ''FEES'', op_value = 1,
               accountId = ''c1'', date = 1600000100000, extra = []\<rparr>"

definition daiAccount :: account where
  "daiAccount = \<lparr>account_type = ''TokenAccount'', account_id = ''d1'', token = dai,
                  parentId = ''p'', balance = 10, spendableBalance = 10, creationDate = 0,
                  operationsCount = 0, operations = [], pendingOperations = [],
                  starred = False, swapHistory = []\<rparr>"

definition cdaiAccount :: account where
  "cdaiAccount = \<lparr>account_type = ''TokenAccount'', account_id = ''c1'', token = cdai,
                   parentId = ''p'', balance = 1, spendableBalance = 1, creationDate = 0,
                   operationsCount = 2, operations = [op_fees, op_in],
                   pendingOperations = [], starred = False, swapHistory = []\<rparr>"






definition env_down :: env where
  "env_down = env0\<lparr>network := network_down\<rparr>"

definition env_empty :: env where
  "env_empty = env0\<lparr>network := network_empty\<rparr>"

definition env_off :: env where
  "env_off = env0\<lparr>COMPOUND := False\<rparr>"

text \<open>The pair that inference finds in a wallet holding DAI and cDAI.\<close>

definition pair0 :: pair where
  "pair0 = \<lparr>tokenAccount = Some daiAccount, pair_token = dai,
              ctoken = cdai, ctokenAccount = Some cdaiAccount\<rparr>"

definition rates0 :: "HistoRate list" where
  "rates0 = [\<lparr>hr_token = cdai, hr_rate = 200000000\<rparr>, \<lparr>hr_token = cdai, hr_rate = 200000000\<rparr>]"

definition op_supply :: operation where
  "op_supply = \<lparr>op_id = ''d1-0xaa-SUPPLY'', hash = ''0xaa'', op_type = ''SUPPLY'',
                 op_value = 600000000, accountId = ''d1'', date = 1600000000500,
                 extra = [(''compoundValue'', ExtraBigNumber 3),
                          (''rate'', ExtraRateString 200000000)]\<rparr>"

definition merged0 :: account where
  "merged0 = daiAccount\<lparr>spendableBalance := 10, balance := 11, operations := [op_supply]\<rparr>"

section \<open>Auxiliary facts\<close>

subsection \<open>Results of calls that may fail\<close>

lemma map_throwing_results:
  "map_throwing f xs = Inr ys \<Longrightarrow> list_all2 (\<lambda>x y. f x = Inr y) xs ys"
  by (induction xs arbitrary: ys) (auto split: sum.splits)

lemma map_throwing_all_ok:
  "list_all2 (\<lambda>x y. f x = Inr y) xs ys \<Longrightarrow> map_throwing f xs = Inr ys"
  by (induction rule: list_all2_induct) auto


lemma set_filter_Boolean: "set (filter_Boolean xs) = {x. Some x \<in> set xs}"
  by (induction xs rule: filter_Boolean.induct) auto

lemma filter_Boolean_all_None:
  "\<forall>x \<in> set xs. x = None \<Longrightarrow> filter_Boolean xs = []"
  by (induction xs rule: filter_Boolean.induct) auto

lemma filter_Boolean_map_Some: "filter_Boolean (map Some xs) = xs"
  by (induction xs) auto

lemma list_all2_pick:
  "list_all2 P xs ys \<Longrightarrow> x \<in> set xs \<Longrightarrow> \<exists>y \<in> set ys. P x y"
  by (induction rule: list_all2_induct) auto

lemma list_all2_pick_right:
  "list_all2 P xs ys \<Longrightarrow> y \<in> set ys \<Longrightarrow> \<exists>x \<in> set xs. P x y"
  by (induction rule: list_all2_induct) auto

lemma map_of_obj_set: "map_of (obj_set m k v) = (map_of m)(k \<mapsto> v)"
  by (induction m) (auto simp: fun_eq_iff)

lemma find_Some_member: "find P xs = Some x \<Longrightarrow> x \<in> set xs \<and> P x"
  by (induction xs) (auto split: if_splits)

lemma integerValue_nonneg: "0 \<le> x \<Longrightarrow> 0 \<le> integerValue x"
  by (simp add: integerValue_def)

subsection \<open>Rates\<close>

lemma fetchHistoricalRates_nth:
  assumes "fetchHistoricalRates e t ds = Inr rates"
  shows "length rates = length ds"
    and "i < length ds \<Longrightarrow> fetchHistoricalRate e t (ds ! i) = Inr (rates ! i)"
proof -
  from assms have l: "list_all2 (\<lambda>d r. fetchHistoricalRate e t d = Inr r) ds rates"
    by (simp add: fetchHistoricalRates_def promiseAllBatched_def map_throwing_results)
  then show "length rates = length ds" by (simp add: list_all2_lengthD)
  assume "i < length ds"
  with l show "fetchHistoricalRate e t (ds ! i) = Inr (rates ! i)"
    by (auto simp: list_all2_conv_all_nth)
qed





subsection \<open>Pair inference\<close>

lemma inferStep_skip:
  "truthy_compoundFor ct = None \<Longrightarrow> inferStep e accs ct m = Inr m"
  by (simp add: inferStep_def)

lemma inferStep_absent:
  assumes "truthy_compoundFor ct = Some cf"
    and "\<not> ((\<exists>a \<in> set accs. token_id (token a) = cf) \<or> (\<exists>a \<in> set accs. token a = ct))"
  shows "inferStep e accs ct m = Inr m"
  using assms by (simp add: inferStep_def find_None_iff)

lemma inferStep_present:
  assumes "truthy_compoundFor ct = Some cf"
    and "(\<exists>a \<in> set accs. token_id (token a) = cf) \<or> (\<exists>a \<in> set accs. token a = ct)"
  shows "inferStep e accs ct m =
           (case getTokenById e cf of
              Inl err \<Rightarrow> Inl err
            | Inr tok \<Rightarrow>
                Inr (obj_set m cf
                      \<lparr>tokenAccount = find (\<lambda>a. token_id (token a) = cf) accs, pair_token = tok,
                       ctoken = ct, ctokenAccount = find (\<lambda>a. token a = ct) accs\<rparr>))"
proof -
  from assms(2) have "\<not> (find (\<lambda>a. token_id (token a) = cf) accs = None \<and>
                          find (\<lambda>a. token a = ct) accs = None)"
    by (auto simp: find_None_iff)
  with assms(1) show ?thesis by (auto simp: inferStep_def Let_def)
qed

text \<open>What an entry of the inferred mapping is.\<close>

lemma inferLoop_entry:
  assumes "inferLoop e accs cts m0 = Inr m" "map_of m cf = Some p"
  shows "map_of m0 cf = Some p \<or>
         (\<exists>ct \<in> set cts. truthy_compoundFor ct = Some cf \<and> ctoken p = ct \<and>
            tokenAccount p = find (\<lambda>a. token_id (token a) = cf) accs \<and>
            ctokenAccount p = find (\<lambda>a. token a = ct) accs \<and>
            ((\<exists>a \<in> set accs. token_id (token a) = cf) \<or> (\<exists>a \<in> set accs. token a = ct)))"
  using assms
proof (induction cts arbitrary: m0)
  case Nil
  then show ?case by simp
next
  case (Cons ct cts)
  from Cons.prems(1) obtain m1 where step: "inferStep e accs ct m0 = Inr m1"
    and rest: "inferLoop e accs cts m1 = Inr m"
    by (auto split: sum.splits)
  from Cons.IH [OF rest Cons.prems(2)] consider
    (old) "map_of m1 cf = Some p"
    | (new) "\<exists>ct \<in> set cts. truthy_compoundFor ct = Some cf \<and> ctoken p = ct \<and>
            tokenAccount p = find (\<lambda>a. token_id (token a) = cf) accs \<and>
            ctokenAccount p = find (\<lambda>a. token a = ct) accs \<and>
            ((\<exists>a \<in> set accs. token_id (token a) = cf) \<or> (\<exists>a \<in> set accs. token a = ct))"
    by blast
  then show ?case
  proof cases
    case new
    then show ?thesis by auto
  next
    case old
    show ?thesis
    proof (cases "truthy_compoundFor ct")
      case None
      with step old show ?thesis by (simp add: inferStep_skip)
    next
      case (Some cf')
      show ?thesis
      proof (cases "(\<exists>a \<in> set accs. token_id (token a) = cf') \<or> (\<exists>a \<in> set accs. token a = ct)")
        case False
        with step old Some show ?thesis by (simp add: inferStep_absent)
      next
        case True
        from step obtain tok where m1: "m1 = obj_set m0 cf'
                      \<lparr>tokenAccount = find (\<lambda>a. token_id (token a) = cf') accs, pair_token = tok,
                       ctoken = ct, ctokenAccount = find (\<lambda>a. token a = ct) accs\<rparr>"
          unfolding inferStep_present [OF Some True] by (auto split: sum.splits)
        show ?thesis
        proof (cases "cf' = cf")
          case False
          with old m1 show ?thesis by (simp add: map_of_obj_set)
        next
          case cf: True
          with old m1 have "p = \<lparr>tokenAccount = find (\<lambda>a. token_id (token a) = cf) accs, pair_token = tok,
                       ctoken = ct, ctokenAccount = find (\<lambda>a. token a = ct) accs\<rparr>"
            by (simp add: map_of_obj_set)
          with Some True cf show ?thesis by simp
        qed
      qed
    qed
  qed
qed

text \<open>Which keys the inferred mapping has.\<close>

lemma inferStep_keeps:
  assumes "inferStep e accs ct m0 = Inr m1" "map_of m0 cf \<noteq> None"
  shows "map_of m1 cf \<noteq> None"
proof (cases "truthy_compoundFor ct")
  case None
  with assms show ?thesis by (simp add: inferStep_skip)
next
  case (Some cf')
  show ?thesis
  proof (cases "(\<exists>a \<in> set accs. token_id (token a) = cf') \<or> (\<exists>a \<in> set accs. token a = ct)")
    case False
    with assms Some show ?thesis by (simp add: inferStep_absent)
  next
    case True
    from assms show ?thesis
      unfolding inferStep_present [OF Some True]
      by (auto simp: map_of_obj_set split: sum.splits)
  qed
qed

lemma inferLoop_keeps:
  assumes "inferLoop e accs cts m0 = Inr m" "map_of m0 cf \<noteq> None"
  shows "map_of m cf \<noteq> None"
  using assms
proof (induction cts arbitrary: m0)
  case Nil
  then show ?case by simp
next
  case (Cons ct cts)
  from Cons.prems(1) obtain m1 where step: "inferStep e accs ct m0 = Inr m1"
    and rest: "inferLoop e accs cts m1 = Inr m"
    by (auto split: sum.splits)
  from inferStep_keeps [OF step Cons.prems(2)] have "map_of m1 cf \<noteq> None" .
  from Cons.IH [OF rest this] show ?case .
qed

lemma inferLoop_key:
  assumes "inferLoop e accs cts m0 = Inr m"
    and "ct \<in> set cts" "truthy_compoundFor ct = Some cf"
    and "(\<exists>a \<in> set accs. token_id (token a) = cf) \<or> (\<exists>a \<in> set accs. token a = ct)"
  shows "map_of m cf \<noteq> None \<and> (\<exists>tok. getTokenById e cf = Inr tok)"
  using assms(1,2)
proof (induction cts arbitrary: m0)
  case Nil
  then show ?case by simp
next
  case (Cons c cts)
  from Cons.prems(1) obtain m1 where step: "inferStep e accs c m0 = Inr m1"
    and rest: "inferLoop e accs cts m1 = Inr m"
    by (auto split: sum.splits)
  show ?case
  proof (cases "c = ct")
    case True
    from step obtain tok where tok: "getTokenById e cf = Inr tok"
      and "m1 = obj_set m0 cf
                      \<lparr>tokenAccount = find (\<lambda>a. token_id (token a) = cf) accs, pair_token = tok,
                       ctoken = ct, ctokenAccount = find (\<lambda>a. token a = ct) accs\<rparr>"
      unfolding True inferStep_present [OF assms(3,4)] by (auto split: sum.splits)
    then have "map_of m1 cf \<noteq> None" by (simp add: map_of_obj_set)
    from inferLoop_keeps [OF rest this] tok show ?thesis by blast
  next
    case False
    with Cons.prems(2) have "ct \<in> set cts" by simp
    from Cons.IH [OF rest this] show ?thesis .
  qed
qed

text \<open>When inference returns.\<close>

lemma inferLoop_returns:
  assumes "\<forall>ct \<in> set cts. \<forall>cf. truthy_compoundFor ct = Some cf \<longrightarrow>
             ((\<exists>a \<in> set accs. token_id (token a) = cf) \<or> (\<exists>a \<in> set accs. token a = ct)) \<longrightarrow>
             (\<exists>tok. getTokenById e cf = Inr tok)"
  shows "\<exists>m. inferLoop e accs cts m0 = Inr m"
  using assms
proof (induction cts arbitrary: m0)
  case Nil
  then show ?case by simp
next
  case (Cons ct cts)
  have "\<exists>m1. inferStep e accs ct m0 = Inr m1"
  proof (cases "truthy_compoundFor ct")
    case None
    then show ?thesis by (simp add: inferStep_skip)
  next
    case (Some cf)
    show ?thesis
    proof (cases "(\<exists>a \<in> set accs. token_id (token a) = cf) \<or> (\<exists>a \<in> set accs. token a = ct)")
      case False
      with Some show ?thesis by (simp add: inferStep_absent)
    next
      case True
      with Cons.prems Some obtain tok where "getTokenById e cf = Inr tok" by auto
      then show ?thesis by (simp add: inferStep_present [OF Some True])
    qed
  qed
  then obtain m1 where step: "inferStep e accs ct m0 = Inr m1" by blast
  from Cons.prems have "\<exists>m. inferLoop e accs cts m1 = Inr m"
    by (intro Cons.IH) auto
  with step show ?case by simp
qed

subsection \<open>Remapped operations\<close>

lemma newOps_member:
  assumes "op' \<in> set (newOps a ca rates)"
  shows "\<exists>i. i < length (operations ca) \<and> i < length rates \<and>
           remapOp a (operations ca ! i) (rates ! i) = Some op'"
proof -
  from assms obtain op r where "(op, r) \<in> set (zip (operations ca) rates)"
    and "remapOp a op r = Some op'"
    by (auto simp: newOps_def set_filter_Boolean)
  then show ?thesis by (auto simp: in_set_zip)
qed

lemma remapOp_value:
  "remapOp a op r = Some op' \<Longrightarrow>
     op_value op' = integerValue (of_int (op_value op) * hr_rate r) \<and> hash op' = hash op \<and>
     date op' = date op"
  by (auto simp: remapOp_def Let_def split: option.splits)

text \<open>Which operations are remapped, and to which types.\<close>

lemma remapOp_type:
  "remapOp a op r =
     (if op_type op = ''IN'' \<or> op_type op = ''OUT''
      then Some (op\<lparr>op_id := account_id a @ ''-'' @ hash op @ ''-'' @
                          (if op_type op = ''IN'' then ''SUPPLY'' else ''REDEEM''),
                    op_type := (if op_type op = ''IN'' then ''SUPPLY'' else ''REDEEM''),
                    op_value := integerValue (of_int (op_value op) * hr_rate r),
                    accountId := account_id a,
                    extra := [(''compoundValue'', ExtraBigNumber (op_value op)),
                              (''rate'', ExtraRateString (hr_rate r))]\<rparr>)
      else None)"
  by (simp add: remapOp_def cdaiToDaiOpMapping_def Let_def)

lemma remapped_types:
  "length rs = length ops \<Longrightarrow>
   map op_type (filter_Boolean (map (\<lambda>(op, r). remapOp a op r) (zip ops rs))) =
   map (\<lambda>op. if op_type op = ''IN'' then ''SUPPLY'' else ''REDEEM'')
     (filter (\<lambda>op. op_type op = ''IN'' \<or> op_type op = ''OUT'') ops)"
  by (induction rs ops rule: list_induct2) (simp_all add: remapOp_type)

lemma remapped_hashes:
  "length rs = length ops \<Longrightarrow>
   map hash (filter_Boolean (map (\<lambda>(op, r). remapOp a op r) (zip ops rs))) =
   map hash (filter (\<lambda>op. op_type op = ''IN'' \<or> op_type op = ''OUT'') ops)"
  by (induction rs ops rule: list_induct2) (simp_all add: remapOp_type)

subsection \<open>Digestion\<close>

lemma digest_unfold:
  assumes "currency_id cur = ''ethereum''" "COMPOUND e"
    and "inferSubAccountsCompound e cur accs = Inr m" "m \<noteq> []"
  shows "digestTokenAccounts e cur accs =
           (case map_throwing (digestAccount e m) accs of
              Inl err \<Rightarrow> Inl err
            | Inr all \<Rightarrow> Inr (Fresh (filter_Boolean all)))"
  using assms by (simp add: digestTokenAccounts_def promiseAllBatched_def)

lemma digest_member:
  assumes "currency_id cur = ''ethereum''" "COMPOUND e"
    and "inferSubAccountsCompound e cur accs = Inr m" "m \<noteq> []"
    and "digestTokenAccounts e cur accs = Inr r"
    and "a \<in> set accs"
  shows "\<exists>y. digestAccount e m a = Inr y \<and> (\<forall>a'. y = Some a' \<longrightarrow> a' \<in> set (contents accs r))"
proof -
  from assms(5) obtain ys where ys: "map_throwing (digestAccount e m) accs = Inr ys"
    and r: "r = Fresh (filter_Boolean ys)"
    unfolding digest_unfold [OF assms(1-4)] by (auto split: sum.splits)
  from ys have "list_all2 (\<lambda>x y. digestAccount e m x = Inr y) accs ys"
    by (rule map_throwing_results)
  from list_all2_pick [OF this assms(6)] obtain y where "y \<in> set ys" "digestAccount e m a = Inr y"
    by blast
  then show ?thesis by (auto simp: r set_filter_Boolean)
qed

lemma digest_merge:
  assumes "currency_id cur = ''ethereum''" "COMPOUND e"
    and "inferSubAccountsCompound e cur accs = Inr m"
    and "digestTokenAccounts e cur accs = Inr r"
    and "a \<in> set accs" "truthy_compoundFor (token a) = None"
    and "map_of m (token_id (token a)) = Some p" "ctokenAccount p = Some ca"
  shows "\<exists>rates. fetchHistoricalRates e (ctoken p) (map date (operations ca)) = Inr rates \<and>
           a\<lparr>spendableBalance := balance a,
             balance := balance a + integerValue (of_int (balance ca) * getCTokenRate e (ctoken p)),
             operations := mergeOps e (operations a) (newOps a ca rates)\<rparr>
             \<in> set (contents accs r)"
proof -
  from assms(7) have "m \<noteq> []" by auto
  from digest_member [OF assms(1-3) this assms(4,5)]
  obtain y where y: "digestAccount e m a = Inr y"
    and mem: "\<And>a'. y = Some a' \<Longrightarrow> a' \<in> set (contents accs r)" by blast
  from y assms(6-8) show ?thesis
    by (auto simp: digestAccount_def Let_def split: sum.splits intro!: mem)
qed

lemma digest_merge_account:
  assumes "currency_id cur = ''ethereum''" "COMPOUND e"
    and "inferSubAccountsCompound e cur accs = Inr m"
    and "digestTokenAccounts e cur accs = Inr r"
    and "a \<in> set accs" "truthy_compoundFor (token a) = None"
    and "map_of m (token_id (token a)) = Some p" "ctokenAccount p = Some ca"
  shows "\<exists>a' rates. digestAccount e m a = Inr (Some a') \<and> a' \<in> set (contents accs r) \<and>
           fetchHistoricalRates e (ctoken p) (map date (operations ca)) = Inr rates \<and>
           a' = a\<lparr>spendableBalance := balance a,
                   balance := balance a + integerValue (of_int (balance ca) * getCTokenRate e (ctoken p)),
                   operations := mergeOps e (operations a) (newOps a ca rates)\<rparr>"
proof -
  from digest_merge [OF assms] obtain rates
    where rates: "fetchHistoricalRates e (ctoken p) (map date (operations ca)) = Inr rates"
      and mem: "a\<lparr>spendableBalance := balance a,
                 balance := balance a + integerValue (of_int (balance ca) * getCTokenRate e (ctoken p)),
                 operations := mergeOps e (operations a) (newOps a ca rates)\<rparr> \<in> set (contents accs r)"
    by blast
  have "digestAccount e m a = Inr (Some (a\<lparr>spendableBalance := balance a,
                 balance := balance a + integerValue (of_int (balance ca) * getCTokenRate e (ctoken p)),
                 operations := mergeOps e (operations a) (newOps a ca rates)\<rparr>))"
    using assms(6-8) rates by (simp add: digestAccount_def)
  with mem rates show ?thesis by blast
qed

text \<open>What the callback of the digestion does to one account.\<close>

lemma digestAccount_token:
  "digestAccount e m a = Inr (Some a') \<Longrightarrow> token a' = token a"
  by (auto simp: digestAccount_def Let_def split: option.splits if_splits sum.splits)

lemma digestAccount_derivative:
  assumes "truthy_compoundFor (token a) = Some cf" "digestAccount e m a = Inr (Some a')"
  shows "a' = a \<and> map_of m cf = None"
  using assms by (auto simp: digestAccount_def split: if_splits)

lemma digestAccount_unchanged:
  assumes "\<And>cf. truthy_compoundFor (token a) = Some cf \<Longrightarrow> map_of m cf = None"
    and "\<And>p. truthy_compoundFor (token a) = None \<Longrightarrow>
           map_of m (token_id (token a)) = Some p \<Longrightarrow> ctokenAccount p = None"
  shows "digestAccount e m a = Inr (Some a)"
proof (cases "truthy_compoundFor (token a)")
  case (Some cf)
  with assms(1) show ?thesis by (simp add: digestAccount_def)
next
  case None
  with assms(2) show ?thesis
    by (auto simp: digestAccount_def split: option.splits)
qed

lemma digest_Fresh_cases:
  assumes "digestTokenAccounts e cur accs = Inr (Fresh out)"
  shows "currency_id cur = ''ethereum'' \<and> COMPOUND e \<and>
         (\<exists>m ys. inferSubAccountsCompound e cur accs = Inr m \<and> m \<noteq> [] \<and>
            list_all2 (\<lambda>a y. digestAccount e m a = Inr y) accs ys \<and> out = filter_Boolean ys)"
  using assms
  by (auto simp: digestTokenAccounts_def promiseAllBatched_def
      split: if_splits sum.splits dest: map_throwing_results)




lemma digest_idempotent_Fresh:
  assumes "digestTokenAccounts e cur accs = Inr (Fresh out)"
  shows "\<exists>r'. digestTokenAccounts e cur out = Inr r' \<and> contents out r' = out"
proof -
  from digest_Fresh_cases [OF assms] obtain m ys
    where gate: "currency_id cur = ''ethereum''" "COMPOUND e"
      and m: "inferSubAccountsCompound e cur accs = Inr m"
      and ys: "list_all2 (\<lambda>a y. digestAccount e m a = Inr y) accs ys"
      and out: "out = filter_Boolean ys"
    by blast
  let ?T = "listTokensForCryptoCurrency e cur"
  from m have loop: "inferLoop e accs ?T [] = Inr m"
    by (simp add: inferSubAccountsCompound_def)
  have origin: "\<exists>a \<in> set accs. digestAccount e m a = Inr (Some a')" if "a' \<in> set out" for a'
  proof -
    from that have "Some a' \<in> set ys" by (simp add: out set_filter_Boolean)
    from list_all2_pick_right [OF ys this] show ?thesis .
  qed
  have tokens: "\<exists>a \<in> set accs. token a = token a'" if "a' \<in> set out" for a'
    using origin [OF that] by (metis digestAccount_token)
  have found: "(\<exists>a \<in> set accs. token_id (token a) = cf) \<or> (\<exists>a \<in> set accs. token a = ct)"
    if "(\<exists>a \<in> set out. token_id (token a) = cf) \<or> (\<exists>a \<in> set out. token a = ct)" for cf ct
    using that tokens by metis
  have "\<exists>m'. inferLoop e out ?T [] = Inr m'"
  proof (rule inferLoop_returns, intro ballI allI impI)
    fix ct cf
    assume "ct \<in> set ?T" "truthy_compoundFor ct = Some cf"
      and "(\<exists>a \<in> set out. token_id (token a) = cf) \<or> (\<exists>a \<in> set out. token a = ct)"
    with inferLoop_key [OF loop _ _ found] show "\<exists>tok. getTokenById e cf = Inr tok"
      by blast
  qed
  then obtain m' where loop': "inferLoop e out ?T [] = Inr m'" by blast
  then have m': "inferSubAccountsCompound e cur out = Inr m'"
    by (simp add: inferSubAccountsCompound_def)
  have same: "digestAccount e m' a' = Inr (Some a')" if a': "a' \<in> set out" for a'
  proof (rule digestAccount_unchanged)
    from origin [OF a'] obtain a where a: "a \<in> set accs" "digestAccount e m a = Inr (Some a')"
      by blast
    {
      fix cf
      assume cf: "truthy_compoundFor (token a') = Some cf"
      with a have "truthy_compoundFor (token a) = Some cf"
        by (simp add: digestAccount_token)
      from digestAccount_derivative [OF this a(2)] have none: "map_of m cf = None" by simp
      show "map_of m' cf = None"
      proof (rule ccontr)
        assume "map_of m' cf \<noteq> None"
        then obtain p where "map_of m' cf = Some p" by auto
        from inferLoop_entry [OF loop' this] obtain ct
          where "ct \<in> set ?T" "truthy_compoundFor ct = Some cf"
            and "(\<exists>a \<in> set out. token_id (token a) = cf) \<or> (\<exists>a \<in> set out. token a = ct)"
          by auto
        with inferLoop_key [OF loop _ _ found] have "map_of m cf \<noteq> None" by blast
        with none show False by simp
      qed
    next
      fix p
      assume plain: "truthy_compoundFor (token a') = None"
        and p: "map_of m' (token_id (token a')) = Some p"
      from inferLoop_entry [OF loop' p] obtain ct
        where ct: "ct \<in> set ?T" "truthy_compoundFor ct = Some (token_id (token a'))"
          and ca: "ctokenAccount p = find (\<lambda>a. token a = ct) out"
        by auto
      show "ctokenAccount p = None"
      proof (rule ccontr)
        assume "ctokenAccount p \<noteq> None"
        with ca obtain x where "find (\<lambda>a. token a = ct) out = Some x" by auto
        then have x: "x \<in> set out" "token x = ct" by (auto dest: find_Some_member)
        from origin [OF x(1)] obtain y where y: "y \<in> set accs" "digestAccount e m y = Inr (Some x)"
          by blast
        then have ty: "token y = ct" using x(2) by (simp add: digestAccount_token)
        with ct(2) have "truthy_compoundFor (token y) = Some (token_id (token a'))" by simp
        from digestAccount_derivative [OF this y(2)]
        have "map_of m (token_id (token a')) = None" by simp
        moreover from y(1) ty have "(\<exists>a \<in> set accs. token_id (token a) = token_id (token a')) \<or>
            (\<exists>a \<in> set accs. token a = ct)" by blast
        from inferLoop_key [OF loop ct this] have "map_of m (token_id (token a')) \<noteq> None" by simp
        ultimately show False by simp
      qed
    }
  qed
  then have "list_all2 (\<lambda>a y. digestAccount e m' a = Inr y) out (map Some out)"
    by (simp add: list_all2_conv_all_nth)
  then have all: "map_throwing (digestAccount e m') out = Inr (map Some out)"
    by (rule map_throwing_all_ok)
  show ?thesis
  proof (cases "m' = []")
    case True
    with gate m' have "digestTokenAccounts e cur out = Inr Input"
      by (simp add: digestTokenAccounts_def)
    then show ?thesis by simp
  next
    case False
    from all have "digestTokenAccounts e cur out = Inr (Fresh out)"
      by (simp add: digest_unfold [OF gate m' False] filter_Boolean_map_Some)
    then show ?thesis by simp
  qed
qed

subsection \<open>Requests that fail or are partly answered\<close>
















subsection \<open>The concrete wallet\<close>

lemma ex0_infer: "inferSubAccountsCompound env0 ethereum [daiAccount, cdaiAccount] = Inr [(''ethereum/erc20/dai'', pair0)]"
  by code_simp

lemma ex0_digest: "digestTokenAccounts env0 ethereum [daiAccount, cdaiAccount] = Inr (Fresh [merged0])"
  by code_simp

lemma ex0_rates: "fetchHistoricalRates env0 cdai (map date (operations cdaiAccount)) = Inr rates0"
  by code_simp

lemma ex0_account: "digestAccount env0 [(''ethereum/erc20/dai'', pair0)] daiAccount = Inr (Some merged0)"
  by code_simp

lemma ex0_newOps: "newOps daiAccount cdaiAccount rates0 = [op_supply]"
  by code_simp

lemma ex0_gate: "currency_id ethereum = ''ethereum''" "COMPOUND env0"
  by (simp_all add: ethereum_def env0_def)

lemma ex0_pair:
  "truthy_compoundFor (token daiAccount) = None"
  "map_of [(''ethereum/erc20/dai'', pair0)] (token_id (token daiAccount)) = Some pair0"
  "ctokenAccount pair0 = Some cdaiAccount" "ctoken pair0 = cdai"
  by (simp_all add: truthy_compoundFor_def daiAccount_def dai_def pair0_def)

lemma ex_down_infer:
  "inferSubAccountsCompound env_down ethereum [daiAccount, cdaiAccount] = Inr [(''ethereum/erc20/dai'', pair0)]"
  by code_simp








section \<open>The claims\<close>

subsection \<open>Exclusivity of derivative accounts (C1)\<close>

text \<open>
  Claim C1 fails on the code. A wallet holding cDAI and no DAI: inference records the
  pair because the cDAI account exists, so the test \<^verbatim>\<open>!compoundByTokenId[compoundFor]\<close>
  fails and the cDAI account is dropped instead of being passed through.
\<close>
theorem lone_derivative_dropped:
  "find (\<lambda>a. token_id (token a) = ''ethereum/erc20/dai'') [cdaiAccount] = None \<and>
   truthy_compoundFor (token cdaiAccount) = Some ''ethereum/erc20/dai'' \<and>
   inferSubAccountsCompound env0 ethereum [cdaiAccount] =
     Inr [(''ethereum/erc20/dai'',
           \<lparr>tokenAccount = None, pair_token = dai, ctoken = cdai, ctokenAccount = Some cdaiAccount\<rparr>)] \<and>
   digestTokenAccounts env0 ethereum [cdaiAccount] = Inr (Fresh [])"
proof -
  have "find (\<lambda>a. token_id (token a) = ''ethereum/erc20/dai'') [cdaiAccount] = None"
    by (simp add: cdaiAccount_def cdai_def)
  moreover have "truthy_compoundFor (token cdaiAccount) = Some ''ethereum/erc20/dai''"
    by (simp add: truthy_compoundFor_def cdaiAccount_def cdai_def)
  moreover have "inferSubAccountsCompound env0 ethereum [cdaiAccount] =
     Inr [(''ethereum/erc20/dai'',
           \<lparr>tokenAccount = None, pair_token = dai, ctoken = cdai, ctokenAccount = Some cdaiAccount\<rparr>)]"
    by code_simp
  moreover have "digestTokenAccounts env0 ethereum [cdaiAccount] = Inr (Fresh [])"
    by code_simp
  ultimately show ?thesis by simp
qed

text \<open>
  Claim C1 at that wallet: the guard of the digestion is passed (the currency is
  ethereum and the flag is on), no account holds DAI, and the output is empty.
\<close>

theorem lone_derivative_dropped_witness:
  "currency_id ethereum = ''ethereum'' \<and> COMPOUND env0 \<and>
   find (\<lambda>a. token_id (token a) = ''ethereum/erc20/dai'') [cdaiAccount] = None \<and>
   digestTokenAccounts env0 ethereum [cdaiAccount] = Inr (Fresh []) \<and>
   contents [cdaiAccount] (Fresh []) = []"
  using lone_derivative_dropped ex0_gate by simp

subsection \<open>Oracle failures (C2)\<close>




subsection \<open>Rounding of converted amounts (C3)\<close>

text \<open>
  Claim C3, amended. The product of an integer amount and a rate is rounded to the
  nearest integer, a tie away from zero: the merged balance is the underlying balance
  plus the rounded product of the derivative balance and the current rate, and the value
  of each remapped operation is the rounded product of the original value and the
  historical rate fetched for the date of that operation.
\<close>
theorem merge_rounds_half_up:
  assumes "currency_id cur = ''ethereum''" "COMPOUND e"
    and "inferSubAccountsCompound e cur accs = Inr m"
    and "digestTokenAccounts e cur accs = Inr r"
    and "a \<in> set accs" "truthy_compoundFor (token a) = None"
    and "map_of m (token_id (token a)) = Some p" "ctokenAccount p = Some ca"
  shows "\<exists>a' rates. digestAccount e m a = Inr (Some a') \<and> a' \<in> set (contents accs r) \<and>
           fetchHistoricalRates e (ctoken p) (map date (operations ca)) = Inr rates \<and>
           balance a' = balance a +
             (let x = of_int (balance ca) * getCTokenRate e (ctoken p)
              in if 0 \<le> x then \<lfloor>x + 1 / 2\<rfloor> else - \<lfloor>- x + 1 / 2\<rfloor>) \<and>
           operations a' = mergeOps e (operations a) (newOps a ca rates) \<and>
           (\<forall>op' \<in> set (newOps a ca rates). \<exists>i < length (operations ca).
              fetchHistoricalRate e (ctoken p) (date (operations ca ! i)) = Inr (rates ! i) \<and>
              hash op' = hash (operations ca ! i) \<and>
              op_value op' =
                (let x = of_int (op_value (operations ca ! i)) * hr_rate (rates ! i)
                 in if 0 \<le> x then \<lfloor>x + 1 / 2\<rfloor> else - \<lfloor>- x + 1 / 2\<rfloor>))"
proof -
  from digest_merge_account [OF assms(1-8)] obtain a' rates
    where a': "digestAccount e m a = Inr (Some a')" "a' \<in> set (contents accs r)"
      and rates: "fetchHistoricalRates e (ctoken p) (map date (operations ca)) = Inr rates"
      and eq: "a' = a\<lparr>spendableBalance := balance a,
                   balance := balance a + integerValue (of_int (balance ca) * getCTokenRate e (ctoken p)),
                   operations := mergeOps e (operations a) (newOps a ca rates)\<rparr>"
    by blast
  have bal: "balance a' = balance a +
             (let x = of_int (balance ca) * getCTokenRate e (ctoken p)
              in if 0 \<le> x then \<lfloor>x + 1 / 2\<rfloor> else - \<lfloor>- x + 1 / 2\<rfloor>)"
    by (simp add: eq integerValue_def Let_def)
  have ops: "operations a' = mergeOps e (operations a) (newOps a ca rates)"
    by (simp add: eq)
  have vals: "\<exists>i < length (operations ca).
              fetchHistoricalRate e (ctoken p) (date (operations ca ! i)) = Inr (rates ! i) \<and>
              hash op' = hash (operations ca ! i) \<and>
              op_value op' =
                (let x = of_int (op_value (operations ca ! i)) * hr_rate (rates ! i)
                 in if 0 \<le> x then \<lfloor>x + 1 / 2\<rfloor> else - \<lfloor>- x + 1 / 2\<rfloor>)"
    if "op' \<in> set (newOps a ca rates)" for op'
  proof -
    from newOps_member [OF that] obtain i where i: "i < length (operations ca)"
      and re: "remapOp a (operations ca ! i) (rates ! i) = Some op'" by blast
    from fetchHistoricalRates_nth(2) [OF rates, of i] i
    have "fetchHistoricalRate e (ctoken p) (date (operations ca ! i)) = Inr (rates ! i)"
      by simp
    moreover from remapOp_value [OF re]
    have "hash op' = hash (operations ca ! i)"
      and "op_value op' =
                (let x = of_int (op_value (operations ca ! i)) * hr_rate (rates ! i)
                 in if 0 \<le> x then \<lfloor>x + 1 / 2\<rfloor> else - \<lfloor>- x + 1 / 2\<rfloor>)"
      by (simp_all add: integerValue_def Let_def)
    ultimately show ?thesis using i by blast
  qed
  from a' rates bal ops vals show ?thesis by blast
qed

text \<open>
  Claim C3, amended, on the wallet holding 10 DAI and 1 cDAI at the rate 1/2: the
  merged balance is 11, and the incoming 3 cDAI become a supply of 600000000.
\<close>
theorem merge_rounds_half_up_witness:
  "currency_id ethereum = ''ethereum'' \<and> COMPOUND env0 \<and>
   inferSubAccountsCompound env0 ethereum [daiAccount, cdaiAccount] = Inr [(''ethereum/erc20/dai'', pair0)] \<and>
   digestTokenAccounts env0 ethereum [daiAccount, cdaiAccount] = Inr (Fresh [merged0]) \<and>
   daiAccount \<in> set [daiAccount, cdaiAccount] \<and> truthy_compoundFor (token daiAccount) = None \<and>
   map_of [(''ethereum/erc20/dai'', pair0)] (token_id (token daiAccount)) = Some pair0 \<and>
   ctokenAccount pair0 = Some cdaiAccount \<and>
   digestAccount env0 [(''ethereum/erc20/dai'', pair0)] daiAccount = Inr (Some merged0) \<and>
   fetchHistoricalRates env0 cdai (map date (operations cdaiAccount)) = Inr rates0 \<and>
   newOps daiAccount cdaiAccount rates0 = [op_supply] \<and>
   balance daiAccount = 10 \<and> balance cdaiAccount = 1 \<and> getCTokenRate env0 cdai = 1 / 2 \<and>
   balance merged0 = 10 + \<lfloor>(1 / 2 + 1 / 2 :: rat)\<rfloor> \<and>
   op_value op_supply = \<lfloor>(3 * 200000000 + 1 / 2 :: rat)\<rfloor>"
proof -
  have mem: "daiAccount \<in> set [daiAccount, cdaiAccount]" by simp
  have R: "getCTokenRate env0 cdai = 1 / 2" by code_simp
  have U: "balance daiAccount = 10" and D: "balance cdaiAccount = 1"
    by (simp_all add: daiAccount_def cdaiAccount_def)
  from merge_rounds_half_up [OF ex0_gate ex0_infer ex0_digest mem ex0_pair(1-3)]
  obtain a' rates where a': "digestAccount env0 [(''ethereum/erc20/dai'', pair0)] daiAccount = Inr (Some a')"
    and rates: "fetchHistoricalRates env0 (ctoken pair0) (map date (operations cdaiAccount)) = Inr rates"
    and bal: "balance a' = balance daiAccount +
             (let x = of_int (balance cdaiAccount) * getCTokenRate env0 (ctoken pair0)
              in if 0 \<le> x then \<lfloor>x + 1 / 2\<rfloor> else - \<lfloor>- x + 1 / 2\<rfloor>)"
    by blast
  from a' have "a' = merged0" by (simp add: ex0_account)
  with bal have "balance merged0 = 10 + \<lfloor>(1 / 2 + 1 / 2 :: rat)\<rfloor>"
    by (simp add: ex0_pair(4) R U D)
  moreover have "\<lfloor>(3 * 200000000 + 1 / 2 :: rat)\<rfloor> = 600000000"
    by code_simp
  then have "op_value op_supply = \<lfloor>(3 * 200000000 + 1 / 2 :: rat)\<rfloor>"
    by (simp only: op_supply_def operation.simps)
  ultimately show ?thesis
    using ex0_gate ex0_infer ex0_digest ex0_account ex0_pair ex0_rates ex0_newOps R U D
    by (simp del: floor_add2)
qed

text \<open>
  Claim C3 as stated fails there: truncation would leave the balance at 10, the code
  returns 11.
\<close>
theorem merge_truncation_counterexample:
  "digestTokenAccounts env0 ethereum [daiAccount, cdaiAccount] = Inr (Fresh [merged0]) \<and>
   inferSubAccountsCompound env0 ethereum [daiAccount, cdaiAccount] = Inr [(''ethereum/erc20/dai'', pair0)] \<and>
   balance daiAccount = 10 \<and> balance cdaiAccount = 1 \<and> getCTokenRate env0 cdai = 1 / 2 \<and>
   balance merged0 = 11 \<and>
   balance merged0 \<noteq> balance daiAccount + \<lfloor>of_int (balance cdaiAccount) * getCTokenRate env0 cdai\<rfloor>"
proof -
  have R: "getCTokenRate env0 cdai = 1 / 2" by code_simp
  have U: "balance daiAccount = 10" and D: "balance cdaiAccount = 1" and M: "balance merged0 = 11"
    by (simp_all add: daiAccount_def cdaiAccount_def merged0_def)
  have F: "\<lfloor>(1 / 2 :: rat)\<rfloor> = 0" by code_simp
  show ?thesis
    using ex0_infer ex0_digest by (simp add: R U D M F)
qed

subsection \<open>Idempotence (C4)\<close>

text \<open>
  Claim C4. \<^verbatim>\<open>digestTokenAccounts\<close> is idempotent: when a digestion returns, digesting
  its output again, with the same registry, oracle and snapshot, returns too, and the
  output is the same list of accounts. Hence no synthesized operation is added twice and
  no derivative balance is counted twice.
\<close>
theorem digest_idempotent:
  assumes "digestTokenAccounts e cur accs = Inr r"
  shows "\<exists>r'. digestTokenAccounts e cur (contents accs r) = Inr r' \<and>
              contents (contents accs r) r' = contents accs r"
proof (cases r)
  case Input
  with assms show ?thesis by simp
next
  case (Fresh out)
  with assms digest_idempotent_Fresh [of e cur accs out] show ?thesis by simp
qed

text \<open>Claim C4 on the wallet holding DAI and cDAI: the merged account comes back as it is.\<close>
theorem digest_idempotent_witness:
  "digestTokenAccounts env0 ethereum [daiAccount, cdaiAccount] = Inr (Fresh [merged0]) \<and>
   contents [daiAccount, cdaiAccount] (Fresh [merged0]) = [merged0] \<and>
   digestTokenAccounts env0 ethereum [merged0] = Inr (Fresh [merged0]) \<and>
   contents [merged0] (Fresh [merged0]) = [merged0]"
proof -
  have second: "digestTokenAccounts env0 ethereum [merged0] = Inr (Fresh [merged0])"
    by code_simp
  show ?thesis
    using digest_idempotent [OF ex0_digest] by (simp add: second ex0_digest)
qed

subsection \<open>Conservation (C5)\<close>

text \<open>
  Claim C5. When the derivative balance and the current rate are not negative, the
  balance of the merged account is at least the balance of the underlying account.
\<close>
theorem merged_balance_not_below:
  assumes "currency_id cur = ''ethereum''" "COMPOUND e"
    and "inferSubAccountsCompound e cur accs = Inr m"
    and "digestTokenAccounts e cur accs = Inr r"
    and "a \<in> set accs" "truthy_compoundFor (token a) = None"
    and "map_of m (token_id (token a)) = Some p" "ctokenAccount p = Some ca"
    and "0 \<le> balance ca" "0 \<le> getCTokenRate e (ctoken p)"
  shows "\<exists>a'. digestAccount e m a = Inr (Some a') \<and> a' \<in> set (contents accs r) \<and>
           balance a \<le> balance a'"
proof -
  from digest_merge_account [OF assms(1-8)] obtain a' rates
    where a': "digestAccount e m a = Inr (Some a')" "a' \<in> set (contents accs r)"
      and eq: "a' = a\<lparr>spendableBalance := balance a,
                   balance := balance a + integerValue (of_int (balance ca) * getCTokenRate e (ctoken p)),
                   operations := mergeOps e (operations a) (newOps a ca rates)\<rparr>"
    by blast
  have "0 \<le> of_int (balance ca) * getCTokenRate e (ctoken p)"
    using assms(9,10) by simp
  then have "0 \<le> integerValue (of_int (balance ca) * getCTokenRate e (ctoken p))"
    by (rule integerValue_nonneg)
  with eq have "balance a \<le> balance a'" by simp
  with a' show ?thesis by blast
qed

text \<open>Claim C5 on the wallet holding 10 DAI and 1 cDAI at the rate 1/2.\<close>
theorem merged_balance_not_below_witness:
  "currency_id ethereum = ''ethereum'' \<and> COMPOUND env0 \<and>
   inferSubAccountsCompound env0 ethereum [daiAccount, cdaiAccount] = Inr [(''ethereum/erc20/dai'', pair0)] \<and>
   digestTokenAccounts env0 ethereum [daiAccount, cdaiAccount] = Inr (Fresh [merged0]) \<and>
   0 \<le> balance cdaiAccount \<and> 0 \<le> getCTokenRate env0 cdai \<and>
   digestAccount env0 [(''ethereum/erc20/dai'', pair0)] daiAccount = Inr (Some merged0) \<and>
   balance daiAccount \<le> balance merged0"
proof -
  have mem: "daiAccount \<in> set [daiAccount, cdaiAccount]" by simp
  have D: "0 \<le> balance cdaiAccount" by (simp add: cdaiAccount_def)
  have R: "0 \<le> getCTokenRate env0 (ctoken pair0)" unfolding ex0_pair(4) by code_simp
  from merged_balance_not_below [OF ex0_gate ex0_infer ex0_digest mem ex0_pair(1-3) D R]
  have "balance daiAccount \<le> balance merged0"
    by (simp add: ex0_account)
  then show ?thesis
    using ex0_gate ex0_infer ex0_digest ex0_account D R by (simp add: ex0_pair(4))
qed

subsection \<open>Type mapping (C6)\<close>

text \<open>
  Claim C6. The operations remapped during a merge are those of the derivative account
  whose type is IN or OUT, in their order; an IN becomes a SUPPLY, an OUT a REDEEM, an
  operation of any other type is dropped, so every remapped operation handed to the
  merged list is a SUPPLY or a REDEEM.
\<close>
theorem remap_type_mapping:
  assumes "currency_id cur = ''ethereum''" "COMPOUND e"
    and "inferSubAccountsCompound e cur accs = Inr m"
    and "digestTokenAccounts e cur accs = Inr r"
    and "a \<in> set accs" "truthy_compoundFor (token a) = None"
    and "map_of m (token_id (token a)) = Some p" "ctokenAccount p = Some ca"
  shows "\<exists>a' rates. digestAccount e m a = Inr (Some a') \<and> a' \<in> set (contents accs r) \<and>
           fetchHistoricalRates e (ctoken p) (map date (operations ca)) = Inr rates \<and>
           operations a' = mergeOps e (operations a) (newOps a ca rates) \<and>
           map op_type (newOps a ca rates) =
             map (\<lambda>op. if op_type op = ''IN'' then ''SUPPLY'' else ''REDEEM'')
               (filter (\<lambda>op. op_type op = ''IN'' \<or> op_type op = ''OUT'') (operations ca)) \<and>
           map hash (newOps a ca rates) =
             map hash (filter (\<lambda>op. op_type op = ''IN'' \<or> op_type op = ''OUT'') (operations ca)) \<and>
           (\<forall>op' \<in> set (newOps a ca rates). op_type op' = ''SUPPLY'' \<or> op_type op' = ''REDEEM'')"
proof -
  from digest_merge_account [OF assms(1-8)] obtain a' rates
    where a': "digestAccount e m a = Inr (Some a')" "a' \<in> set (contents accs r)"
      and rates: "fetchHistoricalRates e (ctoken p) (map date (operations ca)) = Inr rates"
      and eq: "a' = a\<lparr>spendableBalance := balance a,
                   balance := balance a + integerValue (of_int (balance ca) * getCTokenRate e (ctoken p)),
                   operations := mergeOps e (operations a) (newOps a ca rates)\<rparr>"
    by blast
  have len: "length rates = length (operations ca)"
    using fetchHistoricalRates_nth(1) [OF rates] by simp
  have ops: "operations a' = mergeOps e (operations a) (newOps a ca rates)"
    by (simp add: eq)
  have types: "map op_type (newOps a ca rates) =
             map (\<lambda>op. if op_type op = ''IN'' then ''SUPPLY'' else ''REDEEM'')
               (filter (\<lambda>op. op_type op = ''IN'' \<or> op_type op = ''OUT'') (operations ca))"
    unfolding newOps_def by (rule remapped_types [OF len])
  have hashes: "map hash (newOps a ca rates) =
             map hash (filter (\<lambda>op. op_type op = ''IN'' \<or> op_type op = ''OUT'') (operations ca))"
    unfolding newOps_def by (rule remapped_hashes [OF len])
  have "set (map op_type (newOps a ca rates)) \<subseteq> {''SUPPLY'', ''REDEEM''}"
    unfolding types by auto
  then have closed: "\<forall>op' \<in> set (newOps a ca rates). op_type op' = ''SUPPLY'' \<or> op_type op' = ''REDEEM''"
    by auto
  from a' rates ops types hashes closed show ?thesis by blast
qed

text \<open>
  Claim C6 on the wallet whose cDAI account has a FEES and an IN operation: only the
  IN operation is remapped, to a SUPPLY.
\<close>
theorem remap_type_mapping_witness:
  "currency_id ethereum = ''ethereum'' \<and> COMPOUND env0 \<and>
   inferSubAccountsCompound env0 ethereum [daiAccount, cdaiAccount] = Inr [(''ethereum/erc20/dai'', pair0)] \<and>
   digestTokenAccounts env0 ethereum [daiAccount, cdaiAccount] = Inr (Fresh [merged0]) \<and>
   daiAccount \<in> set [daiAccount, cdaiAccount] \<and> truthy_compoundFor (token daiAccount) = None \<and>
   map_of [(''ethereum/erc20/dai'', pair0)] (token_id (token daiAccount)) = Some pair0 \<and>
   ctokenAccount pair0 = Some cdaiAccount \<and>
   fetchHistoricalRates env0 cdai (map date (operations cdaiAccount)) = Inr rates0 \<and>
   map op_type (operations cdaiAccount) = [''FEES'', ''IN''] \<and>
   map op_type (newOps daiAccount cdaiAccount rates0) = [''SUPPLY''] \<and>
   op_supply \<in> set (newOps daiAccount cdaiAccount rates0) \<and> op_type op_supply = ''SUPPLY''"
proof -
  have mem: "daiAccount \<in> set [daiAccount, cdaiAccount]" by simp
  from remap_type_mapping [OF ex0_gate ex0_infer ex0_digest mem ex0_pair(1-3)]
  obtain rates where rates: "fetchHistoricalRates env0 (ctoken pair0) (map date (operations cdaiAccount)) = Inr rates"
    and types: "map op_type (newOps daiAccount cdaiAccount rates) =
             map (\<lambda>op. if op_type op = ''IN'' then ''SUPPLY'' else ''REDEEM'')
               (filter (\<lambda>op. op_type op = ''IN'' \<or> op_type op = ''OUT'') (operations cdaiAccount))"
    by blast
  from rates have "rates = rates0" by (simp add: ex0_pair(4) ex0_rates)
  moreover have ops: "map op_type (operations cdaiAccount) = [''FEES'', ''IN'']"
    by (simp add: cdaiAccount_def op_fees_def op_in_def)
  moreover have "filter (\<lambda>op. op_type op = ''IN'' \<or> op_type op = ''OUT'') (operations cdaiAccount) = [op_in]"
    by (simp add: cdaiAccount_def op_fees_def op_in_def)
  ultimately have "map op_type (newOps daiAccount cdaiAccount rates0) = [''SUPPLY'']"
    using types by (simp add: op_in_def)
  moreover have "op_type op_supply = ''SUPPLY''" by (simp add: op_supply_def)
  ultimately show ?thesis
    using ex0_gate ex0_infer ex0_digest ex0_pair ex0_rates ex0_newOps ops by simp
qed

subsection \<open>Placeholder no-op (C7)\<close>

text \<open>
  Claim C7. When no pair of the inferred mapping has an underlying account without a
  derivative account, \<^verbatim>\<open>prepareTokenAccounts\<close> returns the array it was given, not a
  copy.
\<close>
theorem prepare_returns_input:
  assumes "inferSubAccountsCompound e cur accs = Inr m"
    and "\<forall>p \<in> set (map snd m). \<not> (tokenAccount p \<noteq> None \<and> ctokenAccount p = None)"
  shows "prepareTokenAccounts e cur accs = Inr Input"
proof -
  have "\<forall>x \<in> set (map (placeholder e) (map snd m)). x = None"
    using assms(2) by (auto simp: placeholder_def)
  then have "filter_Boolean (map (placeholder e) (map snd m)) = []"
    by (rule filter_Boolean_all_None)
  with assms(1) show ?thesis
    by (simp add: prepareTokenAccounts_def)
qed

text \<open>Claim C7 on the wallet that holds DAI and cDAI.\<close>
theorem prepare_returns_input_witness:
  "inferSubAccountsCompound env0 ethereum [daiAccount, cdaiAccount] = Inr [(''ethereum/erc20/dai'', pair0)] \<and>
   tokenAccount pair0 = Some daiAccount \<and> ctokenAccount pair0 = Some cdaiAccount \<and>
   currency_id ethereum = ''ethereum'' \<and> COMPOUND env0 \<and>
   prepareTokenAccounts env0 ethereum [daiAccount, cdaiAccount] = Inr Input"
proof -
  have np: "\<forall>p \<in> set (map snd [(''ethereum/erc20/dai'', pair0)]).
              \<not> (tokenAccount p \<noteq> None \<and> ctokenAccount p = None)"
    by (simp add: pair0_def)
  from prepare_returns_input [OF ex0_infer np] ex0_infer ex0_gate
  show ?thesis by (simp add: pair0_def)
qed

subsection \<open>Spendable balance (C8)\<close>

text \<open>
  Claim C8. In every merged account that \<^verbatim>\<open>digestTokenAccounts\<close> produces, the
  spendable balance is the balance the underlying account had before the merge; the
  converted derivative amount is not added to it.
\<close>
theorem spendable_is_premerge_balance:
  assumes "currency_id cur = ''ethereum''" "COMPOUND e"
    and "inferSubAccountsCompound e cur accs = Inr m"
    and "digestTokenAccounts e cur accs = Inr r"
    and "a \<in> set accs" "truthy_compoundFor (token a) = None"
    and "map_of m (token_id (token a)) = Some p" "ctokenAccount p = Some ca"
  shows "\<exists>a'. digestAccount e m a = Inr (Some a') \<and> a' \<in> set (contents accs r) \<and>
           account_id a' = account_id a \<and> spendableBalance a' = balance a"
proof -
  from digest_merge [OF assms] obtain rates
    where rates: "fetchHistoricalRates e (ctoken p) (map date (operations ca)) = Inr rates"
      and mem: "a\<lparr>spendableBalance := balance a,
                 balance := balance a + integerValue (of_int (balance ca) * getCTokenRate e (ctoken p)),
                 operations := mergeOps e (operations a) (newOps a ca rates)\<rparr> \<in> set (contents accs r)"
    by blast
  have "digestAccount e m a = Inr (Some (a\<lparr>spendableBalance := balance a,
                 balance := balance a + integerValue (of_int (balance ca) * getCTokenRate e (ctoken p)),
                 operations := mergeOps e (operations a) (newOps a ca rates)\<rparr>))"
    using assms(6-8) rates by (simp add: digestAccount_def)
  with mem show ?thesis by auto
qed

text \<open>Claim C8 on the wallet holding 10 DAI and 1 cDAI at the rate 1/2.\<close>
theorem spendable_is_premerge_balance_witness:
  "currency_id ethereum = ''ethereum'' \<and> COMPOUND env0 \<and>
   inferSubAccountsCompound env0 ethereum [daiAccount, cdaiAccount] = Inr [(''ethereum/erc20/dai'', pair0)] \<and>
   digestTokenAccounts env0 ethereum [daiAccount, cdaiAccount] = Inr (Fresh [merged0]) \<and>
   digestAccount env0 [(''ethereum/erc20/dai'', pair0)] daiAccount = Inr (Some merged0) \<and>
   balance cdaiAccount = 1 \<and> getCTokenRate env0 cdai = 1 / 2 \<and>
   balance daiAccount = 10 \<and> balance merged0 = 11 \<and> spendableBalance merged0 = 10"
proof -
  have mem: "daiAccount \<in> set [daiAccount, cdaiAccount]" by simp
  from spendable_is_premerge_balance [OF ex0_gate ex0_infer ex0_digest mem ex0_pair(1-3)]
  have "spendableBalance merged0 = balance daiAccount"
    by (simp add: ex0_account)
  moreover have "balance daiAccount = 10" "balance merged0 = 11" "balance cdaiAccount = 1"
    by (simp_all add: daiAccount_def merged0_def cdaiAccount_def)
  moreover have "getCTokenRate env0 cdai = 1 / 2" by code_simp
  ultimately show ?thesis
    using ex0_gate ex0_infer ex0_digest ex0_account by simp
qed

subsection \<open>Snapshot lookups (C9)\<close>

text \<open>
  Claim C9. Whatever snapshot has been installed, \<^verbatim>\<open>getCTokenRate\<close> returns the
  snapshot's rate for the id of the token, or 0 when the snapshot has no entry for it,
  and \<^verbatim>\<open>getCTokenSupplyAPY\<close> returns the stored APY string, or the empty string when
  there is no entry. Both are total: they return a value, never an error.
\<close>
theorem snapshot_lookups:
  "(\<forall>v. map_of snap (token_id ct) = Some v \<longrightarrow>
        getCTokenRate (hydrate e snap) ct = rate v \<and>
        getCTokenSupplyAPY (hydrate e snap) ct = supplyAPY v) \<and>
   (map_of snap (token_id ct) = None \<longrightarrow>
        getCTokenRate (hydrate e snap) ct = 0 \<and>
        getCTokenSupplyAPY (hydrate e snap) ct = [])"
  by (simp add: getCTokenRate_def getCTokenSupplyAPY_def hydrate_def)

text \<open>Claim C9 on a snapshot that knows cDAI and does not know DAI.\<close>
theorem snapshot_lookups_witness:
  "map_of [(''ethereum/erc20/cdai'', \<lparr>rate = 1 / 2, supplyAPY = ''3%''\<rparr>)] (token_id cdai)
     = Some \<lparr>rate = 1 / 2, supplyAPY = ''3%''\<rparr> \<and>
   getCTokenRate (hydrate env_off [(''ethereum/erc20/cdai'', \<lparr>rate = 1 / 2, supplyAPY = ''3%''\<rparr>)]) cdai = 1 / 2 \<and>
   getCTokenSupplyAPY (hydrate env_off [(''ethereum/erc20/cdai'', \<lparr>rate = 1 / 2, supplyAPY = ''3%''\<rparr>)]) cdai = ''3%'' \<and>
   map_of [(''ethereum/erc20/cdai'', \<lparr>rate = 1 / 2, supplyAPY = ''3%''\<rparr>)] (token_id dai) = None \<and>
   getCTokenRate (hydrate env_off [(''ethereum/erc20/cdai'', \<lparr>rate = 1 / 2, supplyAPY = ''3%''\<rparr>)]) dai = 0 \<and>
   getCTokenSupplyAPY (hydrate env_off [(''ethereum/erc20/cdai'', \<lparr>rate = 1 / 2, supplyAPY = ''3%''\<rparr>)]) dai = []"
proof -
  have present: "map_of [(''ethereum/erc20/cdai'', \<lparr>rate = 1 / 2, supplyAPY = ''3%''\<rparr>)] (token_id cdai)
     = Some \<lparr>rate = 1 / 2, supplyAPY = ''3%''\<rparr>"
    by (simp add: cdai_def)
  have absent: "map_of [(''ethereum/erc20/cdai'', \<lparr>rate = 1 / 2, supplyAPY = ''3%''\<rparr>)] (token_id dai) = None"
    by (simp add: dai_def)
  from snapshot_lookups [of "[(''ethereum/erc20/cdai'', \<lparr>rate = 1 / 2, supplyAPY = ''3%''\<rparr>)]" cdai env_off]
    snapshot_lookups [of "[(''ethereum/erc20/cdai'', \<lparr>rate = 1 / 2, supplyAPY = ''3%''\<rparr>)]" dai env_off]
    present absent
  show ?thesis by simp
qed

subsection \<open>The guard of both entry points (C10)\<close>

text \<open>
  Claim C10. When the currency is not ethereum, or the COMPOUND flag is off, both
  \<^verbatim>\<open>prepareTokenAccounts\<close> and \<^verbatim>\<open>digestTokenAccounts\<close> return the array they were given.
\<close>
theorem gate_returns_input:
  assumes "currency_id cur \<noteq> ''ethereum'' \<or> \<not> COMPOUND e"
  shows "prepareTokenAccounts e cur accs = Inr Input \<and> digestTokenAccounts e cur accs = Inr Input"
  using assms by (auto simp: prepareTokenAccounts_def digestTokenAccounts_def)

text \<open>Claim C10 for bitcoin with the flag on, and for ethereum with the flag off.\<close>
theorem gate_returns_input_witness:
  "currency_id bitcoin \<noteq> ''ethereum'' \<and> COMPOUND env0 \<and>
   prepareTokenAccounts env0 bitcoin [daiAccount] = Inr Input \<and>
   digestTokenAccounts env0 bitcoin [daiAccount] = Inr Input \<and>
   currency_id ethereum = ''ethereum'' \<and> COMPOUND env_off = False \<and>
   prepareTokenAccounts env_off ethereum [daiAccount] = Inr Input \<and>
   digestTokenAccounts env_off ethereum [daiAccount] = Inr Input"
proof -
  have b: "currency_id bitcoin \<noteq> ''ethereum''" by (simp add: bitcoin_def)
  have off: "\<not> COMPOUND env_off" by (simp add: env_off_def env0_def)
  from b have "currency_id bitcoin \<noteq> ''ethereum'' \<or> \<not> COMPOUND env0" by simp
  note one = gate_returns_input [OF this, of "[daiAccount]"]
  from off have "currency_id ethereum \<noteq> ''ethereum'' \<or> \<not> COMPOUND env_off" by simp
  note two = gate_returns_input [OF this, of "[daiAccount]"]
  from one two b off ex0_gate show ?thesis by simp
qed

end
